theory Spec2Isabelle
  imports Main "HOL-Library.Word"
begin

section \<open>Python values used by the package\<close>

text \<open>
  A \<^verbatim>\<open>bytes\<close> object is a list of 8-bit words, a \<^verbatim>\<open>str\<close> is a list of Unicode
  code points.  A py_slice \<^verbatim>\<open>b[i:j]\<close> with constant non-negative bounds never raises:
  it is clipped to the length of \<^verbatim>\<open>b\<close>.
\<close>

type_synonym byte = "8 word"
type_synonym bytes = "byte list"
type_synonym pystr = "nat list"

definition py_slice :: "'a list \<Rightarrow> nat \<Rightarrow> nat \<Rightarrow> 'a list" where
  "py_slice xs i j = take (j - i) (drop i xs)"

definition str_of :: "string \<Rightarrow> pystr" where
  "str_of s = map of_char s"

datatype exn = ValueError | OSError | UnicodeDecodeError | LZMAError | AttributeError

subsection \<open>\<^verbatim>\<open>bytes.hex()\<close>\<close>

definition hexdigit :: "nat \<Rightarrow> nat" where
  "hexdigit n = (if n < 10 then 48 + n else 87 + n)"

definition hex2 :: "byte \<Rightarrow> pystr" where
  "hex2 b = [hexdigit (unat b div 16), hexdigit (unat b mod 16)]"

definition hex :: "bytes \<Rightarrow> pystr" where
  "hex bs = concat (map hex2 bs)"

subsection \<open>\<^verbatim>\<open>str.lower()\<close>\<close>

text \<open>
  On a string of ASCII characters \<^verbatim>\<open>lower\<close> maps \<^verbatim>\<open>A..Z\<close> to \<^verbatim>\<open>a..z\<close>.  What it does
  to a string holding a character beyond ASCII is decided by the Unicode tables of the
  interpreter; that part is the parameter \<open>ulower\<close> of every function below.
\<close>

definition ascii_lower :: "nat \<Rightarrow> nat" where
  "ascii_lower c = (if 65 \<le> c \<and> c \<le> 90 then c + 32 else c)"

definition lower :: "(pystr \<Rightarrow> pystr) \<Rightarrow> pystr \<Rightarrow> pystr" where
  "lower ulower s = (if list_all (\<lambda>c. c < 128) s then map ascii_lower s else ulower s)"

subsection \<open>\<^verbatim>\<open>bytes.decode("utf-8")\<close>\<close>

text \<open>
  The strict decoder: \<open>None\<close> stands for the \<^verbatim>\<open>UnicodeDecodeError\<close> it raises on a
  byte that cannot start a character, on a wrong or missing continuation byte, on an
  overlong form and on a surrogate.
\<close>

definition cont :: "byte \<Rightarrow> bool" where
  "cont b = (128 \<le> unat b \<and> unat b \<le> 191)"

definition second_of3 :: "byte \<Rightarrow> byte \<Rightarrow> bool" where
  "second_of3 b0 b1 =
     (if unat b0 = 224 then 160 \<le> unat b1 \<and> unat b1 \<le> 191
      else if unat b0 = 237 then 128 \<le> unat b1 \<and> unat b1 \<le> 159
      else cont b1)"

definition second_of4 :: "byte \<Rightarrow> byte \<Rightarrow> bool" where
  "second_of4 b0 b1 =
     (if unat b0 = 240 then 144 \<le> unat b1 \<and> unat b1 \<le> 191
      else if unat b0 = 244 then 128 \<le> unat b1 \<and> unat b1 \<le> 143
      else cont b1)"

fun utf8_decode :: "bytes \<Rightarrow> pystr option" where
  "utf8_decode [] = Some []"
| "utf8_decode (b0 # bs) =
     (if unat b0 < 128 then map_option ((#) (unat b0)) (utf8_decode bs)
      else if 194 \<le> unat b0 \<and> unat b0 \<le> 223 then
        (case bs of
           b1 # r \<Rightarrow>
             if cont b1
             then map_option ((#) ((unat b0 - 192) * 64 + (unat b1 - 128))) (utf8_decode r)
             else None
         | _ \<Rightarrow> None)
      else if 224 \<le> unat b0 \<and> unat b0 \<le> 239 then
        (case bs of
           b1 # b2 # r \<Rightarrow>
             if second_of3 b0 b1 \<and> cont b2
             then map_option
                    ((#) ((unat b0 - 224) * 4096 + (unat b1 - 128) * 64 + (unat b2 - 128)))
                    (utf8_decode r)
             else None
         | _ \<Rightarrow> None)
      else if 240 \<le> unat b0 \<and> unat b0 \<le> 244 then
        (case bs of
           b1 # b2 # b3 # r \<Rightarrow>
             if second_of4 b0 b1 \<and> cont b2 \<and> cont b3
             then map_option
                    ((#) ((unat b0 - 240) * 262144 + (unat b1 - 128) * 4096
                          + (unat b2 - 128) * 64 + (unat b3 - 128)))
                    (utf8_decode r)
             else None
         | _ \<Rightarrow> None)
      else None)"

subsection \<open>\<^verbatim>\<open>str(bytes)\<close>\<close>

text \<open>
  \<^verbatim>\<open>str\<close> of a \<^verbatim>\<open>bytes\<close> object is its representation: the letter \<^verbatim>\<open>b\<close>, a quote,
  the escaped bytes and the quote again.  The quote is the single quote unless the
  bytes hold a single quote and no double quote.
\<close>

definition repr_byte :: "nat \<Rightarrow> byte \<Rightarrow> pystr" where
  "repr_byte quote b =
     (if unat b = quote \<or> unat b = 92 then [92, unat b]
      else if unat b = 9 then [92, 116]
      else if unat b = 10 then [92, 110]
      else if unat b = 13 then [92, 114]
      else if unat b < 32 \<or> 127 \<le> unat b then [92, 120] @ hex2 b
      else [unat b])"

definition str_bytes :: "bytes \<Rightarrow> pystr" where
  "str_bytes bs =
     (let quote = (if 39 \<in> set (map unat bs) \<and> 34 \<notin> set (map unat bs) then 34 else 39)
      in [98, quote] @ concat (map (repr_byte quote) bs) @ [quote])"

subsection \<open>\<^verbatim>\<open>int.from_bytes\<close>\<close>

datatype byteorder = Big | Little

fun unsigned_little :: "bytes \<Rightarrow> int" where
  "unsigned_little [] = 0"
| "unsigned_little (b # bs) = uint b + 256 * unsigned_little bs"

definition int_from_bytes :: "bytes \<Rightarrow> byteorder \<Rightarrow> bool \<Rightarrow> int" where
  "int_from_bytes bs order is_signed =
     (let u = unsigned_little (case order of Little \<Rightarrow> bs | Big \<Rightarrow> rev bs)
      in if is_signed \<and> bs \<noteq> [] \<and> 2 ^ (8 * length bs - 1) \<le> u
         then u - 2 ^ (8 * length bs) else u)"

section \<open>The package: \<^verbatim>\<open>sc_compression/__init__.py\<close>\<close>

datatype Signature = NONE | LZMA | SC | SCLZ | SIG

text \<open>
  The state a method can change: the files of the machine and the attribute
  \<^verbatim>\<open>_formattedbuffer\<close> of the object (\<open>None\<close> while it is unset).  The attribute
  \<^verbatim>\<open>_buffer\<close> is assigned by the constructor only, so the methods take it as an
  argument.

  Opening a file for writing and writing to it can fail.  What happens when the bytes
  \<open>data\<close> are written to \<open>path\<close> is given by the machine, in the field \<open>wb_outcome\<close>:
  the file is written; or \<^verbatim>\<open>open\<close> raises \<^verbatim>\<open>OSError\<close> and no file changes; or the
  file is opened, which empties it, and \<^verbatim>\<open>write\<close> or the closing of the file raises
  \<^verbatim>\<open>OSError\<close> with only part of the bytes in the file.
\<close>

datatype write_result = Written | OpenFails | WriteFails bytes

record state =
  files :: "string \<Rightarrow> bytes option"
  formattedbuffer :: "bytes option"
  wb_outcome :: "string \<Rightarrow> bytes \<Rightarrow> write_result"

text \<open>
  \<^verbatim>\<open>with open(path, "wb") as f: f.write(data)\<close>: the exception raised, if any, and the
  state after it.
\<close>

definition write_error :: "state \<Rightarrow> string \<Rightarrow> bytes \<Rightarrow> exn option" where
  "write_error st path data =
     (case wb_outcome st path data of
        Written \<Rightarrow> None
      | OpenFails \<Rightarrow> Some OSError
      | WriteFails part \<Rightarrow> Some OSError)"

definition write_file :: "string \<Rightarrow> bytes \<Rightarrow> state \<Rightarrow> exn option \<times> state" where
  "write_file path data st =
     (case wb_outcome st path data of
        Written \<Rightarrow> (None, st\<lparr>files := (files st)(path \<mapsto> data)\<rparr>)
      | OpenFails \<Rightarrow> (Some OSError, st)
      | WriteFails part \<Rightarrow> (Some OSError, st\<lparr>files := (files st)(path \<mapsto> part)\<rparr>))"

text \<open>
  \<^verbatim>\<open>with open(path, "rb") as f: f.read()\<close>: a path that holds a NUL character is
  refused with \<^verbatim>\<open>ValueError\<close>; a file that cannot be opened or read, one the file
  system does not hold, raises \<^verbatim>\<open>OSError\<close>.
\<close>

definition read_file :: "(string \<Rightarrow> bytes option) \<Rightarrow> string \<Rightarrow> exn + bytes" where
  "read_file fs path =
     (if CHR 0x00 \<in> set path then Inl ValueError
      else (case fs path of None \<Rightarrow> Inl OSError | Some content \<Rightarrow> Inr content))"

text \<open>\<^verbatim>\<open>__init__\<close>: the result is the value of \<^verbatim>\<open>self._buffer\<close>.\<close>

definition init :: "(string \<Rightarrow> bytes option) \<Rightarrow> string \<Rightarrow> bytes \<Rightarrow> exn + bytes" where
  "init fs fp buffer =
     (if fp \<noteq> [] then read_file fs fp
      else if buffer \<noteq> [] then Inr buffer
      else Inl ValueError)"

definition readSignature :: "(pystr \<Rightarrow> pystr) \<Rightarrow> bytes \<Rightarrow> exn + Signature" where
  "readSignature ulower buffer =
     (if lower ulower (hex (py_slice buffer 0 3)) = str_of ''5d0000'' then Inr LZMA
      else
        (case utf8_decode (py_slice buffer 0 2) of
           None \<Rightarrow> Inl UnicodeDecodeError
         | Some s2 \<Rightarrow>
             if lower ulower s2 = str_of ''sc'' then
               (if 30 < length buffer then
                  (case utf8_decode (py_slice buffer 26 30) of
                     None \<Rightarrow> Inl UnicodeDecodeError
                   | Some s4 \<Rightarrow>
                       if lower ulower s4 = str_of ''sclz'' then Inr SCLZ else Inr SC)
                else Inr SC)
             else
               (case utf8_decode (py_slice buffer 0 4) of
                  None \<Rightarrow> Inl UnicodeDecodeError
                | Some s4 \<Rightarrow>
                    if lower ulower s4 = str_of ''sig:'' then Inr SIG else Inr NONE)))"

text \<open>The external decoder \<open>lz\<close> is a parameter; \<open>None\<close> is its failure.\<close>

definition lzma_decompress :: "(bytes \<Rightarrow> bytes option) \<Rightarrow> bytes \<Rightarrow> exn + bytes" where
  "lzma_decompress lz data = (case lz data of None \<Rightarrow> Inl LZMAError | Some out \<Rightarrow> Inr out)"

definition decompressLZMA ::
  "(bytes \<Rightarrow> bytes option) \<Rightarrow> nat \<Rightarrow> bytes \<Rightarrow> state \<Rightarrow> (exn + bytes) \<times> state" where
  "decompressLZMA lz offset buffer st =
     (let uncompressedSize = int_from_bytes (py_slice buffer (5 + offset) (9 + offset)) Big True;
          fb = (if uncompressedSize = - 1
                then py_slice buffer offset (9 + offset) @ [255, 255, 255, 255]
                       @ drop (9 + offset) buffer
                else py_slice buffer offset (9 + offset) @ [0, 0, 0, 0]
                       @ drop (9 + offset) buffer);
          st1 = st\<lparr>formattedbuffer := Some fb\<rparr>
      in (case write_file ''newinsertpy.csv'' fb st1 of
            (Some e, st2) \<Rightarrow> (Inl e, st2)
          | (None, st2) \<Rightarrow> (lzma_decompress lz fb, st2)))"

definition decompressSC ::
  "(bytes \<Rightarrow> bytes option) \<Rightarrow> bytes \<Rightarrow> state \<Rightarrow> (exn + bytes) \<times> state" where
  "decompressSC lz buffer st = decompressLZMA lz 26 buffer st"

definition decompressSCLZ :: "bytes \<Rightarrow> state \<Rightarrow> (exn + bytes) \<times> state" where
  "decompressSCLZ buffer st = (Inr buffer, st)"

definition decompressSIG ::
  "(bytes \<Rightarrow> bytes option) \<Rightarrow> bytes \<Rightarrow> state \<Rightarrow> (exn + bytes) \<times> state" where
  "decompressSIG lz buffer st = decompressLZMA lz 68 buffer st"

definition decompress ::
  "(bytes \<Rightarrow> bytes option) \<Rightarrow> (pystr \<Rightarrow> pystr) \<Rightarrow> bytes \<Rightarrow> state
     \<Rightarrow> (exn + bytes) \<times> state" where
  "decompress lz ulower buffer st =
     (case readSignature ulower buffer of
        Inl e \<Rightarrow> (Inl e, st)
      | Inr NONE \<Rightarrow> (Inr buffer, st)
      | Inr LZMA \<Rightarrow> decompressLZMA lz 0 buffer st
      | Inr SC \<Rightarrow> decompressSC lz buffer st
      | Inr SCLZ \<Rightarrow> decompressSCLZ buffer st
      | Inr SIG \<Rightarrow> decompressSIG lz buffer st)"

text \<open>Constructing an object and calling \<^verbatim>\<open>decompress\<close> on it at once.\<close>

definition construct_decompress ::
  "(bytes \<Rightarrow> bytes option) \<Rightarrow> (pystr \<Rightarrow> pystr) \<Rightarrow> string \<Rightarrow> bytes \<Rightarrow> state
     \<Rightarrow> (exn + bytes) \<times> state" where
  "construct_decompress lz ulower fp buffer st =
     (case init (files st) fp buffer of
        Inl e \<Rightarrow> (Inl e, st)
      | Inr b \<Rightarrow> decompress lz ulower b st)"

section \<open>The second class: \<^verbatim>\<open>sc_compression/ScCompression.py\<close>\<close>

text \<open>
  Its constructor has no last branch: with no path and no buffer the object is built
  and \<^verbatim>\<open>_buffer\<close> stays unset, so the buffer of an object is optional here and a
  method that reads it raises \<^verbatim>\<open>AttributeError\<close> when it is unset.
\<close>

definition init_B :: "(string \<Rightarrow> bytes option) \<Rightarrow> string \<Rightarrow> bytes \<Rightarrow> exn + bytes option" where
  "init_B fs fp buffer =
     (if fp \<noteq> [] then
        (case read_file fs fp of Inl e \<Rightarrow> Inl e | Inr content \<Rightarrow> Inr (Some content))
      else if buffer \<noteq> [] then Inr (Some buffer)
      else Inr None)"

definition readSignature_B :: "(pystr \<Rightarrow> pystr) \<Rightarrow> bytes option \<Rightarrow> exn + Signature" where
  "readSignature_B ulower self_buffer =
     (case self_buffer of
        None \<Rightarrow> Inl AttributeError
      | Some buffer \<Rightarrow>
          if lower ulower (hex (py_slice buffer 0 3)) = str_of ''5d0000'' then Inr LZMA
          else if lower ulower (str_bytes (py_slice buffer 0 2)) = str_of ''sc'' then
            (if 30 < length buffer
                \<and> lower ulower (str_bytes (py_slice buffer 26 30)) = str_of ''sclz''
             then Inr SCLZ else Inr SC)
          else if str_bytes (py_slice buffer 0 4) = str_of ''sig:'' then Inr SIG
          else Inr NONE)"

definition decompressLZMA_B ::
  "(bytes \<Rightarrow> bytes option) \<Rightarrow> bytes option \<Rightarrow> state \<Rightarrow> (exn + bytes) \<times> state" where
  "decompressLZMA_B lz self_buffer st =
     (case self_buffer of
        None \<Rightarrow> (Inl AttributeError, st)
      | Some buffer \<Rightarrow>
          (let uncompressedSize = int_from_bytes (py_slice buffer 5 9) Little True;
               fb = (if uncompressedSize = - 1
                     then take 9 buffer @ [255, 255, 255, 255] @ drop 9 buffer
                     else take 9 buffer @ [0, 0, 0, 0] @ drop 9 buffer)
           in (lzma_decompress lz fb, st\<lparr>formattedbuffer := Some fb\<rparr>)))"

definition decompressSC_B ::
  "(bytes \<Rightarrow> bytes option) \<Rightarrow> bytes option \<Rightarrow> state \<Rightarrow> (exn + bytes) \<times> state" where
  "decompressSC_B lz self_buffer st =
     (case self_buffer of
        None \<Rightarrow> (Inl AttributeError, st)
      | Some buffer \<Rightarrow>
          decompressLZMA_B lz self_buffer (st\<lparr>formattedbuffer := Some (drop 26 buffer)\<rparr>))"

definition decompressSCLZ_B :: "bytes option \<Rightarrow> state \<Rightarrow> (exn + bytes) \<times> state" where
  "decompressSCLZ_B self_buffer st =
     (case self_buffer of
        None \<Rightarrow> (Inl AttributeError, st)
      | Some buffer \<Rightarrow> (Inr buffer, st\<lparr>formattedbuffer := Some buffer\<rparr>))"

definition decompressSIG_B ::
  "(bytes \<Rightarrow> bytes option) \<Rightarrow> bytes option \<Rightarrow> state \<Rightarrow> (exn + bytes) \<times> state" where
  "decompressSIG_B lz self_buffer st =
     (case self_buffer of
        None \<Rightarrow> (Inl AttributeError, st)
      | Some buffer \<Rightarrow>
          decompressLZMA_B lz self_buffer (st\<lparr>formattedbuffer := Some (drop 68 buffer)\<rparr>))"

definition Decompress_B ::
  "(bytes \<Rightarrow> bytes option) \<Rightarrow> (pystr \<Rightarrow> pystr) \<Rightarrow> bytes option \<Rightarrow> state
     \<Rightarrow> (exn + bytes) \<times> state" where
  "Decompress_B lz ulower self_buffer st =
     (case readSignature_B ulower self_buffer of
        Inl e \<Rightarrow> (Inl e, st)
      | Inr NONE \<Rightarrow> (case self_buffer of None \<Rightarrow> (Inl AttributeError, st)
                                       | Some buffer \<Rightarrow> (Inr buffer, st))
      | Inr LZMA \<Rightarrow> decompressLZMA_B lz self_buffer st
      | Inr SC \<Rightarrow> decompressSC_B lz self_buffer st
      | Inr SCLZ \<Rightarrow> decompressSCLZ_B self_buffer st
      | Inr SIG \<Rightarrow> decompressSIG_B lz self_buffer st)"

section \<open>The canonical stream as the specification words it\<close>

text \<open>
  The specification's step 2: the nine header bytes, an eight-byte sentinel (all
  \<^verbatim>\<open>FF\<close> when the size read is \<open>-1\<close>, else four zero bytes and the four stored size
  bytes), then the payload.
\<close>

definition spec_canonical_stream :: "bytes \<Rightarrow> nat \<Rightarrow> bytes" where
  "spec_canonical_stream buffer offset =
     py_slice buffer offset (offset + 9)
     @ (if int_from_bytes (py_slice buffer (offset + 5) (offset + 9)) Big True = - 1
        then [255, 255, 255, 255, 255, 255, 255, 255]
        else [0, 0, 0, 0] @ py_slice buffer (offset + 5) (offset + 9))
     @ drop (offset + 9) buffer"

section \<open>Facts about the Python values\<close>

lemma unsigned_little_bounds:
  "0 \<le> unsigned_little bs \<and> unsigned_little bs < 256 ^ length bs"
proof (induction bs)
  case Nil
  show ?case by simp
next
  case (Cons b bs)
  have b: "0 \<le> uint b" "uint b < 256"
    using uint_lt2p [of b] by simp_all
  from Cons b show ?case by simp
qed

lemma uint_byte_255: "(uint (b::byte) = 255) = (b = 255)"
  using word_uint_eq_iff [of b 255] by simp

lemma base256_top_digit:
  fixes x u t :: int
  assumes "0 \<le> x" "x < 256" "0 \<le> u" "u < t"
  shows "(x + 256 * u = 256 * t - 1) = (x = 255 \<and> u = t - 1)"
  using assms by arith

lemma unsigned_little_max:
  "(unsigned_little bs = 256 ^ length bs - 1) = list_all (\<lambda>b. b = 255) bs"
proof (induction bs)
  case Nil
  show ?case by simp
next
  case (Cons b bs)
  have b: "0 \<le> uint b" "uint b < 256"
    using uint_lt2p [of b] by simp_all
  have u: "0 \<le> unsigned_little bs" "unsigned_little bs < 256 ^ length bs"
    using unsigned_little_bounds [of bs] by simp_all
  have "(uint b + 256 * unsigned_little bs = 256 * 256 ^ length bs - 1)
        = (uint b = 255 \<and> unsigned_little bs = 256 ^ length bs - 1)"
    using b u by (rule base256_top_digit)
  with Cons uint_byte_255 [of b] show ?case by simp
qed

lemma list_all_rev_eq: "list_all P (rev xs) = list_all P xs"
  by (simp add: list_all_iff)

lemma signed_minus_one_iff:
  fixes u t :: int
  assumes "0 \<le> u" "u < t"
  shows "((if h \<le> u then u - t else u) = - 1) = (h \<le> u \<and> u = t - 1)"
  using assms by auto

lemma half_le_max: "n \<noteq> 0 \<Longrightarrow> (2::int) ^ (8 * n - 1) \<le> 256 ^ n - 1"
proof -
  assume "n \<noteq> 0"
  then obtain m where m: "n = Suc m" by (cases n) auto
  have "(256::int) ^ n = 2 ^ (8 * n)"
    by (simp add: power_mult)
  also have "\<dots> = 2 * 2 ^ (8 * n - 1)"
    using power_minus_mult [of "8 * n" "2::int"] m by simp
  finally have "(256::int) ^ n = 2 * 2 ^ (8 * n - 1)" .
  moreover have "(1::int) \<le> 2 ^ (8 * n - 1)" by simp
  ultimately show ?thesis by linarith
qed

lemma int_from_bytes_minus_one:
  "(int_from_bytes bs order True = - 1) = (bs \<noteq> [] \<and> list_all (\<lambda>b. b = 255) bs)"
proof (cases "bs = []")
  case True
  then show ?thesis by (cases order) (simp_all add: int_from_bytes_def)
next
  case False
  define cs where "cs = (case order of Little \<Rightarrow> bs | Big \<Rightarrow> rev bs)"
  have len: "length cs = length bs" and all: "list_all (\<lambda>b. b = 255) cs = list_all (\<lambda>b. b = 255) bs"
    by (cases order; simp add: cs_def list_all_rev_eq)+
  have u: "0 \<le> unsigned_little cs" "unsigned_little cs < 256 ^ length bs"
    using unsigned_little_bounds [of cs] len by simp_all
  have pw: "(2::int) ^ (8 * length bs) = 256 ^ length bs"
    by (simp add: power_mult)
  have "int_from_bytes bs order True =
      (if 2 ^ (8 * length bs - 1) \<le> unsigned_little cs
       then unsigned_little cs - 256 ^ length bs else unsigned_little cs)"
    using False by (simp add: int_from_bytes_def cs_def pw)
  then have "(int_from_bytes bs order True = - 1)
      = (2 ^ (8 * length bs - 1) \<le> unsigned_little cs \<and> unsigned_little cs = 256 ^ length bs - 1)"
    using signed_minus_one_iff [OF u] by simp
  also have "\<dots> = (unsigned_little cs = 256 ^ length bs - 1)"
    using half_le_max [of "length bs"] False by auto
  also have "\<dots> = list_all (\<lambda>b. b = 255) bs"
    using unsigned_little_max [of cs] len all by simp
  finally show ?thesis using False by simp
qed

section \<open>Facts about slices and the adapted stream\<close>

lemmas sig_defs = readSignature_def lower_def hex_def hex2_def hexdigit_def py_slice_def str_of_def
  ascii_lower_def cont_def second_of3_def second_of4_def

lemma unsigned_little_append_zeros:
  "unsigned_little (bs @ replicate n 0) = unsigned_little bs"
proof (induction bs)
  case Nil
  show ?case by (induction n) simp_all
next
  case (Cons b bs)
  then show ?case by simp
qed

lemma all_ff_4: "length bs = 4 \<Longrightarrow> list_all (\<lambda>b. b = 255) bs = (bs = [255, 255, 255, 255])"
  by (cases bs; cases "tl bs"; cases "tl (tl bs)"; cases "tl (tl (tl bs))") auto

lemma stored_length: "offset + 9 \<le> length buffer \<Longrightarrow> length (py_slice buffer (offset + 5) (offset + 9)) = 4"
  by (simp add: py_slice_def)

lemma field_of_stream:
  assumes "offset + 9 \<le> length buffer" and "length pad = 4"
  shows "py_slice (py_slice buffer offset (offset + 9) @ pad @ rest) 5 13
         = py_slice buffer (offset + 5) (offset + 9) @ pad"
proof -
  have "drop 5 (take 9 (drop offset buffer)) = take 4 (drop (offset + 5) buffer)"
    by (simp add: drop_take add.commute)
  moreover have "length (take 4 (drop (offset + 5) buffer)) = 4"
    using assms by simp
  ultimately show ?thesis using assms by (simp add: py_slice_def)
qed

lemma decompressLZMA_B_formatted:
  "formattedbuffer (snd (decompressLZMA_B lz (Some buffer) st))
     = Some (py_slice buffer 0 9
             @ (if int_from_bytes (py_slice buffer 5 9) Little True = - 1
                then [255, 255, 255, 255] else [0, 0, 0, 0])
             @ drop 9 buffer)"
  by (simp add: decompressLZMA_B_def Let_def py_slice_def)

lemma write_error_formattedbuffer_update:
  "write_error (st\<lparr>formattedbuffer := x\<rparr>) path data = write_error st path data"
  by (simp add: write_error_def)

lemma after_write_fst:
  "fst (case write_file path data st of
          (Some e, st2) \<Rightarrow> (Inl e, st2)
        | (None, st2) \<Rightarrow> (r, st2))
     = (case write_error st path data of None \<Rightarrow> r | Some e \<Rightarrow> Inl e)"
  by (simp add: write_file_def write_error_def split: write_result.split)

lemma after_write_formattedbuffer:
  "formattedbuffer (snd (case write_file path data st of
          (Some e, st2) \<Rightarrow> (Inl e, st2)
        | (None, st2) \<Rightarrow> (r, st2)))
     = formattedbuffer st"
  by (simp add: write_file_def split: write_result.split)

lemma decompressLZMA_formatted:
  "formattedbuffer (snd (decompressLZMA lz offset buffer st))
     = Some (py_slice buffer offset (offset + 9)
             @ (if int_from_bytes (py_slice buffer (offset + 5) (offset + 9)) Big True = - 1
                then [255, 255, 255, 255] else [0, 0, 0, 0])
             @ drop (offset + 9) buffer)"
  by (simp add: decompressLZMA_def Let_def add.commute after_write_formattedbuffer)

lemma int_from_bytes_zero_padded:
  assumes "length stored = 4"
  shows "int_from_bytes (stored @ [0, 0, 0, 0]) Little True = int_from_bytes stored Little False"
proof -
  have z: "[0, 0, 0, 0] = replicate 4 (0::byte)"
    by (simp add: numeral_eq_Suc)
  have u: "unsigned_little (stored @ [0, 0, 0, 0]) = unsigned_little stored"
    unfolding z by (rule unsigned_little_append_zeros)
  have "unsigned_little stored < 256 ^ 4"
    using unsigned_little_bounds [of stored] assms by simp
  then have "\<not> 2 ^ 63 \<le> unsigned_little stored" by simp
  then show ?thesis
    using assms by (simp add: int_from_bytes_def u)
qed

lemma decompressLZMA_drop:
  "decompressLZMA lz offset buffer st = decompressLZMA lz 0 (drop offset buffer) st"
proof -
  have a: "py_slice buffer (5 + offset) (9 + offset) = py_slice (drop offset buffer) 5 9"
    and b: "py_slice buffer offset (9 + offset) = py_slice (drop offset buffer) 0 9"
    and c: "drop (9 + offset) buffer = drop 9 (drop offset buffer)"
    by (simp_all add: py_slice_def add.commute)
  show ?thesis
    unfolding decompressLZMA_def a b c by simp
qed

lemma decompressLZMA_fst:
  "fst (decompressLZMA lz offset buffer st)
     = (case write_error st ''newinsertpy.csv''
               (py_slice buffer offset (offset + 9)
                @ (if int_from_bytes (py_slice buffer (offset + 5) (offset + 9)) Big True = - 1
                   then [255, 255, 255, 255] else [0, 0, 0, 0])
                @ drop (offset + 9) buffer) of
          None \<Rightarrow> lzma_decompress lz
               (py_slice buffer offset (offset + 9)
                @ (if int_from_bytes (py_slice buffer (offset + 5) (offset + 9)) Big True = - 1
                   then [255, 255, 255, 255] else [0, 0, 0, 0])
                @ drop (offset + 9) buffer)
        | Some e \<Rightarrow> Inl e)"
  unfolding decompressLZMA_def Let_def add.commute [of 9 offset] add.commute [of 5 offset]
    after_write_fst write_error_formattedbuffer_update
  by simp

lemma decompressLZMA_files:
  "files (snd (decompressLZMA lz offset buffer st))
     = (case wb_outcome st ''newinsertpy.csv''
               (py_slice buffer offset (offset + 9)
                @ (if int_from_bytes (py_slice buffer (offset + 5) (offset + 9)) Big True = - 1
                   then [255, 255, 255, 255] else [0, 0, 0, 0])
                @ drop (offset + 9) buffer) of
          Written \<Rightarrow> (files st)(''newinsertpy.csv'' \<mapsto>
               py_slice buffer offset (offset + 9)
                @ (if int_from_bytes (py_slice buffer (offset + 5) (offset + 9)) Big True = - 1
                   then [255, 255, 255, 255] else [0, 0, 0, 0])
                @ drop (offset + 9) buffer)
        | OpenFails \<Rightarrow> files st
        | WriteFails part \<Rightarrow> (files st)(''newinsertpy.csv'' \<mapsto> part))"
  unfolding decompressLZMA_def Let_def add.commute [of 9 offset] add.commute [of 5 offset]
  by (simp add: write_file_def split: write_result.split)

lemma readSignature_empty: "readSignature ulower [] = Inr NONE"
  by (simp add: sig_defs)

section \<open>Facts about the classification\<close>

lemma unat_byte_less: "unat (b::byte) < 256"
proof -
  have "unat b < 2 ^ LENGTH(8)" by (rule unsigned_less)
  then show ?thesis by simp
qed

lemma hexdigit_ascii: "n < 16 \<Longrightarrow> hexdigit n < 128 \<and> ascii_lower (hexdigit n) = hexdigit n"
  by (simp add: hexdigit_def ascii_lower_def)

lemma hex2_ascii: "list_all (\<lambda>c. c < 128) (hex2 b) \<and> map ascii_lower (hex2 b) = hex2 b"
proof -
  have "unat b div 16 < 16"
    using unat_byte_less [of b] by simp
  moreover have "unat b mod 16 < 16" by simp
  ultimately show ?thesis
    using hexdigit_ascii [of "unat b div 16"] hexdigit_ascii [of "unat b mod 16"]
    by (simp add: hex2_def)
qed

lemma hex_ascii: "list_all (\<lambda>c. c < 128) (hex bs) \<and> map ascii_lower (hex bs) = hex bs"
  by (induction bs) (simp_all add: hex_def hex2_ascii)

lemma lower_hex: "lower ulower (hex bs) = hex bs"
  by (simp add: lower_def hex_ascii)

lemma hexdigit_inj: "m < 16 \<Longrightarrow> n < 16 \<Longrightarrow> hexdigit m = hexdigit n \<Longrightarrow> m = n"
  by (auto simp: hexdigit_def split: if_splits)

lemma hex2_inj: "hex2 a = hex2 b \<Longrightarrow> a = b"
proof -
  assume h: "hex2 a = hex2 b"
  have lt: "unat a div 16 < 16" "unat b div 16 < 16" "unat a mod 16 < 16" "unat b mod 16 < 16"
    using unat_byte_less [of a] unat_byte_less [of b] by simp_all
  from h have "hexdigit (unat a div 16) = hexdigit (unat b div 16)"
    and "hexdigit (unat a mod 16) = hexdigit (unat b mod 16)"
    by (simp_all add: hex2_def)
  with lt have "unat a div 16 = unat b div 16" "unat a mod 16 = unat b mod 16"
    using hexdigit_inj [of "unat a div 16" "unat b div 16"]
      hexdigit_inj [of "unat a mod 16" "unat b mod 16"] by blast+
  then have "unat a = unat b"
    by (metis div_mult_mod_eq)
  then show "a = b" by (simp add: word_unat_eq_iff)
qed

lemma hex_inj: "hex as = hex bs \<Longrightarrow> as = bs"
proof (induction as arbitrary: bs)
  case Nil
  then show ?case by (cases bs) (simp_all add: hex_def hex2_def)
next
  case (Cons a as)
  then show ?case
  proof (cases bs)
    case Nil
    with Cons.prems show ?thesis by (simp add: hex_def hex2_def)
  next
    case (Cons b bs')
    with Cons.prems have "hex2 a @ hex as = hex2 b @ hex bs'"
      by (simp add: hex_def)
    moreover have "length (hex2 a) = length (hex2 b)" by (simp add: hex2_def)
    ultimately have "hex2 a = hex2 b" "hex as = hex bs'" by simp_all
    with Cons.IH [of bs'] hex2_inj Cons show ?thesis by simp
  qed
qed

lemma hex_5d0000: "hex [93, 0, 0] = str_of ''5d0000''"
  by (simp add: hex_def hex2_def hexdigit_def str_of_def)

lemma lzma_test: "(lower ulower (hex (py_slice buffer 0 3)) = str_of ''5d0000'') = (take 3 buffer = [93, 0, 0])"
proof -
  have "(hex (take 3 buffer) = hex [93, 0, 0]) = (take 3 buffer = [93, 0, 0])"
    by (auto dest: hex_inj)
  then show ?thesis
    by (simp add: lower_hex py_slice_def hex_5d0000)
qed

lemma repr_byte_ascii: "quote < 128 \<Longrightarrow> list_all (\<lambda>c. c < 128) (repr_byte quote b)"
  using hex2_ascii [of b] by (simp add: repr_byte_def)

lemma concat_repr_ascii:
  "quote < 128 \<Longrightarrow> list_all (\<lambda>c. c < 128) (concat (map (repr_byte quote) bs))"
  by (induction bs) (simp_all add: repr_byte_ascii)

lemma str_bytes_shape:
  "\<exists>quote rest. str_bytes bs = 98 # quote # rest \<and> list_all (\<lambda>c. c < 128) (quote # rest)"
proof -
  define quote :: nat where
    "quote = (if 39 \<in> set (map unat bs) \<and> 34 \<notin> set (map unat bs) then 34 else 39)"
  have q: "quote < 128" by (simp add: quote_def)
  have "str_bytes bs = 98 # quote # (concat (map (repr_byte quote) bs) @ [quote])"
    by (simp add: str_bytes_def quote_def Let_def)
  moreover have "list_all (\<lambda>c. c < 128) (quote # (concat (map (repr_byte quote) bs) @ [quote]))"
    using q concat_repr_ascii [OF q, of bs] by simp
  ultimately show ?thesis by blast
qed

lemma str_bytes_never_matches:
  "lower ulower (str_bytes bs) \<noteq> str_of ''sc''"
  "lower ulower (str_bytes bs) \<noteq> str_of ''sclz''"
  "str_bytes bs \<noteq> str_of ''sig:''"
proof -
  obtain quote rest where s: "str_bytes bs = 98 # quote # rest"
    and a: "list_all (\<lambda>c. c < 128) (quote # rest)"
    using str_bytes_shape [of bs] by blast
  have l: "lower ulower (str_bytes bs) = 98 # map ascii_lower (quote # rest)"
    using a by (simp add: s lower_def ascii_lower_def)
  show "lower ulower (str_bytes bs) \<noteq> str_of ''sc''"
    and "lower ulower (str_bytes bs) \<noteq> str_of ''sclz''"
    unfolding l by (simp_all add: str_of_def)
  show "str_bytes bs \<noteq> str_of ''sig:''"
    unfolding s by (simp add: str_of_def)
qed

lemma readSignature_B_Some:
  "readSignature_B ulower (Some buffer)
     = (if take 3 buffer = [93, 0, 0] then Inr LZMA else Inr NONE)"
  by (simp add: readSignature_B_def lzma_test str_bytes_never_matches)

lemma readSignature_LZMA_iff:
  "(readSignature ulower buffer = Inr LZMA) = (take 3 buffer = [93, 0, 0])"
  by (auto simp: readSignature_def lzma_test split: option.splits if_splits)

lemma utf8_decode_ascii:
  "list_all (\<lambda>b. unat b < 128) bs \<Longrightarrow> utf8_decode bs = Some (map unat bs)"
  by (induction bs) simp_all

lemma lower_ascii:
  "list_all (\<lambda>b. unat b < 128) bs
     \<Longrightarrow> lower ulower (map unat bs) = map (\<lambda>b. ascii_lower (unat b)) bs"
  by (simp add: lower_def list_all_iff)

lemma ascii_lower_eq_s: "ascii_lower n = 115 \<Longrightarrow> n = 83 \<or> n = 115"
  by (auto simp: ascii_lower_def split: if_splits)

lemma ascii_lower_eq_c: "ascii_lower n = 99 \<Longrightarrow> n = 67 \<or> n = 99"
  by (auto simp: ascii_lower_def split: if_splits)

section \<open>The claims\<close>

subsection \<open>C1: the stream handed to the decoder\<close>

text \<open>
  C1, as the specification states it, fails: the stream the code builds holds a
  four-byte pad after the nine header bytes, not an eight-byte sentinel.  For the buffer
  \<^verbatim>\<open>5D 00 00 04 00 01 00 00 00 07\<close> the decoder receives fourteen bytes, the stream of
  the specification has eighteen.
\<close>

theorem C1_counterexample:
  "fst (decompress (\<lambda>s. Some s) (\<lambda>s. s) [93, 0, 0, 4, 0, 1, 0, 0, 0, 7]
          \<lparr>files = \<lambda>p. None, formattedbuffer = None, wb_outcome = \<lambda>p d. Written\<rparr>)
     = Inr [93, 0, 0, 4, 0, 1, 0, 0, 0, 0, 0, 0, 0, 7]
   \<and> spec_canonical_stream [93, 0, 0, 4, 0, 1, 0, 0, 0, 7] 0
     = [93, 0, 0, 4, 0, 1, 0, 0, 0, 0, 0, 0, 0, 1, 0, 0, 0, 7]
   \<and> fst (decompress (\<lambda>s. Some s) (\<lambda>s. s) [93, 0, 0, 4, 0, 1, 0, 0, 0, 7]
          \<lparr>files = \<lambda>p. None, formattedbuffer = None, wb_outcome = \<lambda>p d. Written\<rparr>)
     \<noteq> Inr (spec_canonical_stream [93, 0, 0, 4, 0, 1, 0, 0, 0, 7] 0)"
proof -
  have sg: "readSignature (\<lambda>s. s) [93, 0, 0, 4, 0, 1, 0, 0, 0, 7] = Inr LZMA"
    by (simp add: sig_defs)
  have a: "fst (decompress (\<lambda>s. Some s) (\<lambda>s. s) [93, 0, 0, 4, 0, 1, 0, 0, 0, 7]
          \<lparr>files = \<lambda>p. None, formattedbuffer = None, wb_outcome = \<lambda>p d. Written\<rparr>)
     = Inr [93, 0, 0, 4, 0, 1, 0, 0, 0, 0, 0, 0, 0, 7]"
    by (simp add: decompress_def sg decompressLZMA_def lzma_decompress_def py_slice_def
        int_from_bytes_def Let_def write_file_def)
  have b: "spec_canonical_stream [93, 0, 0, 4, 0, 1, 0, 0, 0, 7] 0
     = [93, 0, 0, 4, 0, 1, 0, 0, 0, 0, 0, 0, 0, 1, 0, 0, 0, 7]"
    by (simp add: spec_canonical_stream_def py_slice_def int_from_bytes_def)
  show ?thesis unfolding a b by simp
qed

text \<open>
  C1, amended: for a buffer classified \<open>LZMA\<close>, \<open>SC\<close> or \<open>SIG\<close> and the header offset
  0, 26 or 68 of that signature, the stream \<^verbatim>\<open>decompress\<close> builds for the LZMA decoder
  is \<^verbatim>\<open>buffer[offset:offset+9]\<close>, then the four bytes \<^verbatim>\<open>FF FF FF FF\<close> when the size
  read is \<open>-1\<close> and \<^verbatim>\<open>00 00 00 00\<close> otherwise, then \<^verbatim>\<open>buffer[offset+9:]\<close>; the stream
  is four bytes longer than \<^verbatim>\<open>buffer[offset:]\<close>, and it is the value left in
  \<^verbatim>\<open>_formattedbuffer\<close>.  Once the write of \<^verbatim>\<open>newinsertpy.csv\<close> has succeeded the
  result of \<^verbatim>\<open>decompress\<close> is what the decoder answers on that stream; when it raises,
  the decoder is not reached.  The adapt step itself, \<^verbatim>\<open>_decompressLZMA\<close>, does so for
  every buffer and every offset.
\<close>

theorem C1_stream_passed_to_decoder:
  assumes "readSignature ulower buffer = Inr sg"
    and "(sg = LZMA \<and> offset = 0) \<or> (sg = SC \<and> offset = 26) \<or> (sg = SIG \<and> offset = 68)"
  shows "(\<exists>stream.
           stream = py_slice buffer offset (offset + 9)
                    @ (if int_from_bytes (py_slice buffer (offset + 5) (offset + 9)) Big True = - 1
                       then [255, 255, 255, 255] else [0, 0, 0, 0])
                    @ drop (offset + 9) buffer
         \<and> decompress lz ulower buffer st = decompressLZMA lz offset buffer st
         \<and> fst (decompress lz ulower buffer st)
             = (case write_error st ''newinsertpy.csv'' stream of
                  None \<Rightarrow> lzma_decompress lz stream
                | Some e \<Rightarrow> Inl e)
         \<and> formattedbuffer (snd (decompress lz ulower buffer st)) = Some stream
         \<and> length stream = length (drop offset buffer) + 4)
       \<and> fst (decompressLZMA lz k b st)
           = (case write_error st ''newinsertpy.csv''
                     (py_slice b k (k + 9)
                      @ (if int_from_bytes (py_slice b (k + 5) (k + 9)) Big True = - 1
                         then [255, 255, 255, 255] else [0, 0, 0, 0])
                      @ drop (k + 9) b) of
                None \<Rightarrow> lzma_decompress lz
                     (py_slice b k (k + 9)
                      @ (if int_from_bytes (py_slice b (k + 5) (k + 9)) Big True = - 1
                         then [255, 255, 255, 255] else [0, 0, 0, 0])
                      @ drop (k + 9) b)
              | Some e \<Rightarrow> Inl e)"
proof -
  have d: "decompress lz ulower buffer st = decompressLZMA lz offset buffer st"
    using assms by (auto simp: decompress_def decompressSC_def decompressSIG_def)
  have l: "length (py_slice buffer offset (offset + 9) @ pad @ drop (offset + 9) buffer)
           = length (drop offset buffer) + length pad" for pad :: bytes
    by (auto simp: py_slice_def)
  have a: "\<exists>stream.
           stream = py_slice buffer offset (offset + 9)
                    @ (if int_from_bytes (py_slice buffer (offset + 5) (offset + 9)) Big True = - 1
                       then [255, 255, 255, 255] else [0, 0, 0, 0])
                    @ drop (offset + 9) buffer
         \<and> decompress lz ulower buffer st = decompressLZMA lz offset buffer st
         \<and> fst (decompress lz ulower buffer st)
             = (case write_error st ''newinsertpy.csv'' stream of
                  None \<Rightarrow> lzma_decompress lz stream
                | Some e \<Rightarrow> Inl e)
         \<and> formattedbuffer (snd (decompress lz ulower buffer st)) = Some stream
         \<and> length stream = length (drop offset buffer) + 4"
    unfolding d decompressLZMA_fst decompressLZMA_formatted using l by simp
  from a decompressLZMA_fst [of lz k b st] show ?thesis by (rule conjI)
qed

text \<open>
  Witness of C1: a buffer with the 26-byte \<^verbatim>\<open>SC\<close> header and the stored size
  \<^verbatim>\<open>FF FF FF FF\<close>; the decoder (here the identity) receives the payload with four
  more \<^verbatim>\<open>FF\<close> bytes after the size field.
\<close>

theorem C1_stream_passed_to_decoder_witness:
  "readSignature (\<lambda>s. s)
     [83, 67, 0, 0, 0, 0, 0, 0, 0, 0, 0, 0, 0, 0, 0, 0, 0, 0, 0, 0, 0, 0, 0, 0, 0, 0,
      93, 0, 0, 4, 0, 255, 255, 255, 255, 7] = Inr SC
   \<and> fst (decompress (\<lambda>s. Some s) (\<lambda>s. s)
       [83, 67, 0, 0, 0, 0, 0, 0, 0, 0, 0, 0, 0, 0, 0, 0, 0, 0, 0, 0, 0, 0, 0, 0, 0, 0,
        93, 0, 0, 4, 0, 255, 255, 255, 255, 7]
       \<lparr>files = \<lambda>p. None, formattedbuffer = None, wb_outcome = \<lambda>p d. Written\<rparr>)
     = Inr [93, 0, 0, 4, 0, 255, 255, 255, 255, 255, 255, 255, 255, 7]"
proof -
  have sg: "readSignature (\<lambda>s. s)
     [83, 67, 0, 0, 0, 0, 0, 0, 0, 0, 0, 0, 0, 0, 0, 0, 0, 0, 0, 0, 0, 0, 0, 0, 0, 0,
      93, 0, 0, 4, 0, 255, 255, 255, 255, 7] = Inr SC"
    by (simp add: sig_defs)
  have off: "(SC = LZMA \<and> (26::nat) = 0) \<or> (SC = SC \<and> (26::nat) = 26) \<or> (SC = SIG \<and> (26::nat) = 68)"
    by simp
  from C1_stream_passed_to_decoder [OF sg off, of "\<lambda>s. Some s"
      "\<lparr>files = \<lambda>p. None, formattedbuffer = None, wb_outcome = \<lambda>p d. Written\<rparr>"] sg
  show ?thesis
    by (simp add: py_slice_def int_from_bytes_def lzma_decompress_def write_error_def)
qed

subsection \<open>C2: the size field after the adaptation\<close>

text \<open>
  C2: when the four size bytes \<^verbatim>\<open>buffer[offset+5:offset+9]\<close> are present, the eight
  bytes 5..13 of the adapted stream are all \<^verbatim>\<open>FF\<close> if the four stored bytes are all
  \<^verbatim>\<open>FF\<close>, and otherwise the stored bytes followed by four zero bytes, so that read
  little-endian the field is \<open>-1\<close> or the unsigned stored value.  The size read is \<open>-1\<close>
  exactly when the stored bytes are all \<^verbatim>\<open>FF\<close>, big-endian (as \<^verbatim>\<open>__init__.py\<close> reads
  it) and little-endian (as \<^verbatim>\<open>ScCompression.py\<close> reads it), and the two classes build
  the same field from the same payload.
\<close>

theorem C2_size_field_repacked:
  assumes "offset + 9 \<le> length buffer"
  shows "\<exists>stored fb field fb' field'.
           stored = py_slice buffer (offset + 5) (offset + 9)
         \<and> formattedbuffer (snd (decompressLZMA lz offset buffer st)) = Some fb
         \<and> field = py_slice fb 5 13
         \<and> formattedbuffer (snd (decompressLZMA_B lz (Some (drop offset buffer)) st)) = Some fb'
         \<and> field' = py_slice fb' 5 13
         \<and> length stored = 4
         \<and> (int_from_bytes stored Big True = - 1) = (stored = [255, 255, 255, 255])
         \<and> (int_from_bytes stored Little True = - 1) = (stored = [255, 255, 255, 255])
         \<and> field = (if stored = [255, 255, 255, 255]
                     then [255, 255, 255, 255, 255, 255, 255, 255]
                     else stored @ [0, 0, 0, 0])
         \<and> field' = field
         \<and> int_from_bytes field Little True
             = (if stored = [255, 255, 255, 255] then - 1 else int_from_bytes stored Little False)"
proof -
  define stored where "stored = py_slice buffer (offset + 5) (offset + 9)"
  define pad :: bytes where
    "pad = (if stored = [255, 255, 255, 255] then [255, 255, 255, 255] else [0, 0, 0, 0])"
  define field where "field = stored @ pad"
  have len: "length stored = 4"
    unfolding stored_def using assms by (rule stored_length)
  have m1: "(int_from_bytes stored order True = - 1) = (stored = [255, 255, 255, 255])" for order
    using int_from_bytes_minus_one [of stored order] all_ff_4 [OF len] len by auto
  have padlen: "length pad = 4" by (simp add: pad_def)
  have a: "formattedbuffer (snd (decompressLZMA lz offset buffer st))
           = Some (py_slice buffer offset (offset + 9) @ pad @ drop (offset + 9) buffer)"
    unfolding decompressLZMA_formatted stored_def [symmetric] m1 pad_def by simp
  have fa: "py_slice (py_slice buffer offset (offset + 9) @ pad @ drop (offset + 9) buffer) 5 13 = field"
    unfolding field_def stored_def using assms padlen by (rule field_of_stream)
  have s': "py_slice (drop offset buffer) 5 9 = stored"
    by (simp add: stored_def py_slice_def add.commute)
  have b: "formattedbuffer (snd (decompressLZMA_B lz (Some (drop offset buffer)) st))
           = Some (py_slice (drop offset buffer) 0 9 @ pad @ drop 9 (drop offset buffer))"
    unfolding decompressLZMA_B_formatted s' m1 pad_def by simp
  have fb: "py_slice (py_slice (drop offset buffer) 0 9 @ pad @ drop 9 (drop offset buffer)) 5 13 = field"
    using field_of_stream [of 0 "drop offset buffer" pad "drop 9 (drop offset buffer)"]
      assms padlen s' by (simp add: field_def)
  have fv: "field = (if stored = [255, 255, 255, 255]
                     then [255, 255, 255, 255, 255, 255, 255, 255]
                     else stored @ [0, 0, 0, 0])"
    by (simp add: field_def pad_def)
  have rd: "int_from_bytes field Little True
             = (if stored = [255, 255, 255, 255] then - 1 else int_from_bytes stored Little False)"
  proof (cases "stored = [255, 255, 255, 255]")
    case True
    then have "field = [255, 255, 255, 255, 255, 255, 255, 255]" by (simp add: fv)
    then have "int_from_bytes field Little True = - 1"
      using int_from_bytes_minus_one [of field Little] by simp
    with True show ?thesis by simp
  next
    case False
    then have "field = stored @ [0, 0, 0, 0]" by (simp add: fv)
    with False int_from_bytes_zero_padded [OF len] show ?thesis by simp
  qed
  from a fa b fb len m1 fv rd show ?thesis
    unfolding stored_def [symmetric] by blast
qed

text \<open>
  Witness of C2: one buffer whose stored size is \<^verbatim>\<open>FF FF FF FF\<close> and one whose stored
  size is \<^verbatim>\<open>01 02 03 04\<close>.
\<close>

theorem C2_size_field_repacked_witness:
  "(0::nat) + 9 \<le> length [93, 0, 0, 4, 0, 255, 255, 255, 255, 7 :: byte]
   \<and> (\<exists>fb. formattedbuffer (snd (decompressLZMA (\<lambda>s. None) 0
                 [93, 0, 0, 4, 0, 255, 255, 255, 255, 7]
                 \<lparr>files = \<lambda>p. None, formattedbuffer = None, wb_outcome = \<lambda>p d. Written\<rparr>)) = Some fb
         \<and> py_slice fb 5 13 = [255, 255, 255, 255, 255, 255, 255, 255])
   \<and> (0::nat) + 9 \<le> length [93, 0, 0, 4, 0, 1, 2, 3, 4, 7 :: byte]
   \<and> (\<exists>fb. formattedbuffer (snd (decompressLZMA (\<lambda>s. None) 0
                 [93, 0, 0, 4, 0, 1, 2, 3, 4, 7]
                 \<lparr>files = \<lambda>p. None, formattedbuffer = None, wb_outcome = \<lambda>p d. Written\<rparr>)) = Some fb
         \<and> py_slice fb 5 13 = [1, 2, 3, 4, 0, 0, 0, 0])"
proof -
  have h1: "(0::nat) + 9 \<le> length [93, 0, 0, 4, 0, 255, 255, 255, 255, 7 :: byte]"
    and h2: "(0::nat) + 9 \<le> length [93, 0, 0, 4, 0, 1, 2, 3, 4, 7 :: byte]"
    by simp_all
  have s1: "py_slice [93, 0, 0, 4, 0, 255, 255, 255, 255, 7 :: byte] (0 + 5) (0 + 9)
            = [255, 255, 255, 255]"
    and s2: "py_slice [93, 0, 0, 4, 0, 1, 2, 3, 4, 7 :: byte] (0 + 5) (0 + 9) = [1, 2, 3, 4]"
    by (simp_all add: py_slice_def)
  from C2_size_field_repacked [OF h1, of "\<lambda>s. None"
      "\<lparr>files = \<lambda>p. None, formattedbuffer = None, wb_outcome = \<lambda>p d. Written\<rparr>"]
  have w1: "\<exists>fb. formattedbuffer (snd (decompressLZMA (\<lambda>s. None) 0
                 [93, 0, 0, 4, 0, 255, 255, 255, 255, 7]
                 \<lparr>files = \<lambda>p. None, formattedbuffer = None, wb_outcome = \<lambda>p d. Written\<rparr>)) = Some fb
         \<and> py_slice fb 5 13 = [255, 255, 255, 255, 255, 255, 255, 255]"
    unfolding s1 by auto
  from C2_size_field_repacked [OF h2, of "\<lambda>s. None"
      "\<lparr>files = \<lambda>p. None, formattedbuffer = None, wb_outcome = \<lambda>p d. Written\<rparr>"]
  have w2: "\<exists>fb. formattedbuffer (snd (decompressLZMA (\<lambda>s. None) 0
                 [93, 0, 0, 4, 0, 1, 2, 3, 4, 7]
                 \<lparr>files = \<lambda>p. None, formattedbuffer = None, wb_outcome = \<lambda>p d. Written\<rparr>)) = Some fb
         \<and> py_slice fb 5 13 = [1, 2, 3, 4, 0, 0, 0, 0]"
    unfolding s2 by auto
  from h1 h2 w1 w2 show ?thesis by blast
qed

subsection \<open>C3: a payload behind a container header\<close>


subsection \<open>C4: classification of bytes that are not text\<close>

text \<open>
  C4 says that classification returns a signature for every byte sequence.  In
  \<^verbatim>\<open>__init__.py\<close> the two bytes \<^verbatim>\<open>FF FF\<close> are not the pattern \<^verbatim>\<open>5D 00 00\<close>, so the
  first two bytes are decoded as UTF-8, and the decoder raises: \<^verbatim>\<open>_readSignature\<close> and
  with it \<^verbatim>\<open>decompress\<close> end in \<^verbatim>\<open>UnicodeDecodeError\<close>.  The class of
  \<^verbatim>\<open>ScCompression.py\<close> answers \<open>NONE\<close> on the same bytes.
\<close>

theorem C4_classification_raises:
  "readSignature ulower [255, 255] = Inl UnicodeDecodeError
   \<and> decompress lz ulower [255, 255] st = (Inl UnicodeDecodeError, st)
   \<and> readSignature_B ulower (Some [255, 255]) = Inr NONE"
  by (simp add: decompress_def readSignature_B_def sig_defs str_bytes_def repr_byte_def)

subsection \<open>C5: buffers that start with SC\<close>

text \<open>
  C5 says that a buffer starting with \<^verbatim>\<open>SC\<close> is classified \<open>SC\<close> unless it is longer
  than 30 bytes and holds \<^verbatim>\<open>SCLZ\<close> at 26..30.  A buffer of 31 bytes that starts with
  \<^verbatim>\<open>SC\<close> and holds \<^verbatim>\<open>FF FF FF FF\<close> at 26..30 is not classified at all in
  \<^verbatim>\<open>__init__.py\<close>: decoding those four bytes raises \<^verbatim>\<open>UnicodeDecodeError\<close>.
\<close>

theorem C5_sc_prefix_raises:
  "readSignature ulower
     [83, 67, 0, 0, 0, 0, 0, 0, 0, 0, 0, 0, 0, 0, 0, 0, 0, 0, 0, 0, 0, 0, 0, 0, 0, 0,
      255, 255, 255, 255, 0] = Inl UnicodeDecodeError"
  by (simp add: sig_defs)

subsection \<open>C6: the constructor\<close>

text \<open>
  C6 says that the constructor fails when a path and a buffer are both given, and when
  neither is.  With the path of a file holding the byte \<^verbatim>\<open>02\<close> and the buffer
  \<^verbatim>\<open>01\<close>, the constructor of either class succeeds with the content of the file; with
  neither, the constructor of \<^verbatim>\<open>ScCompression.py\<close> succeeds and leaves \<^verbatim>\<open>_buffer\<close>
  unset (only the one of \<^verbatim>\<open>__init__.py\<close> raises \<^verbatim>\<open>ValueError\<close>).
\<close>

theorem C6_both_supplied_accepted:
  "init (\<lambda>p. if p = ''a.sc'' then Some [2] else None) ''a.sc'' [1] = Inr [2]
   \<and> init_B (\<lambda>p. if p = ''a.sc'' then Some [2] else None) ''a.sc'' [1] = Inr (Some [2])
   \<and> init fs [] [] = Inl ValueError
   \<and> init_B fs [] [] = Inr None"
  by (simp add: init_def init_B_def read_file_def)

subsection \<open>C7: buffers with no signature\<close>

text \<open>
  C7, as stated, fails in its second part: an object cannot be constructed from the
  empty buffer.  With no path and the buffer \<^verbatim>\<open>b""\<close> the constructor raises
  \<^verbatim>\<open>ValueError\<close>, so constructing and decompressing does not return \<^verbatim>\<open>b""\<close>.
\<close>

theorem C7_counterexample:
  "init (\<lambda>p. None) [] [] = Inl ValueError
   \<and> construct_decompress (\<lambda>s. None) (\<lambda>s. s) [] []
        \<lparr>files = \<lambda>p. None, formattedbuffer = None, wb_outcome = \<lambda>p d. Written\<rparr>
      = (Inl ValueError, \<lparr>files = \<lambda>p. None, formattedbuffer = None, wb_outcome = \<lambda>p d. Written\<rparr>)
   \<and> fst (construct_decompress (\<lambda>s. None) (\<lambda>s. s) [] []
        \<lparr>files = \<lambda>p. None, formattedbuffer = None, wb_outcome = \<lambda>p d. Written\<rparr>) \<noteq> Inr []"
  by (simp add: construct_decompress_def init_def)

text \<open>
  C7, amended: for every buffer classified \<open>NONE\<close>, \<^verbatim>\<open>decompress\<close> returns the buffer
  and changes nothing.  The empty buffer is classified \<open>NONE\<close> and \<^verbatim>\<open>decompress\<close>
  returns it; an object holds it when it was read from an empty file (one whose path
  \<^verbatim>\<open>open\<close> accepts: a path with a NUL character is refused with \<^verbatim>\<open>ValueError\<close>),
  while the constructor called with no path and the empty buffer raises
  \<^verbatim>\<open>ValueError\<close>.
\<close>

theorem C7_none_passes_through:
  assumes "readSignature ulower buffer = Inr NONE"
  shows "decompress lz ulower buffer st = (Inr buffer, st)
       \<and> readSignature ulower [] = Inr NONE
       \<and> decompress lz ulower [] st = (Inr [], st)
       \<and> init fs [] [] = Inl ValueError
       \<and> construct_decompress lz ulower [] [] st = (Inl ValueError, st)
       \<and> construct_decompress lz ulower (c # fp) arg (st\<lparr>files := (files st)(c # fp \<mapsto> [])\<rparr>)
           = (if CHR 0x00 \<in> set (c # fp) then Inl ValueError else Inr [],
              st\<lparr>files := (files st)(c # fp \<mapsto> [])\<rparr>)"
  using assms
  by (simp add: decompress_def readSignature_empty construct_decompress_def init_def
      read_file_def)

text \<open>
  Witness of C7: the three bytes \<^verbatim>\<open>01 02 03\<close> are classified \<open>NONE\<close> and returned.
\<close>

theorem C7_none_passes_through_witness:
  "readSignature (\<lambda>s. s) [1, 2, 3] = Inr NONE
   \<and> decompress (\<lambda>s. None) (\<lambda>s. s) [1, 2, 3] \<lparr>files = \<lambda>p. None, formattedbuffer = None, wb_outcome = \<lambda>p d. Written\<rparr>
       = (Inr [1, 2, 3], \<lparr>files = \<lambda>p. None, formattedbuffer = None, wb_outcome = \<lambda>p d. Written\<rparr>)"
proof -
  have sg: "readSignature (\<lambda>s. s) [1, 2, 3] = Inr NONE"
    by (simp add: sig_defs)
  from C7_none_passes_through [OF sg] sg show ?thesis by simp
qed

subsection \<open>C8: the file written while decompressing\<close>

text \<open>
  C8 says that \<^verbatim>\<open>decompress\<close> persists no intermediate stream.  In \<^verbatim>\<open>__init__.py\<close>
  the adapted stream of a buffer classified \<open>LZMA\<close> is written to the file
  \<^verbatim>\<open>newinsertpy.csv\<close> before the decoder runs, whatever the files held before and
  whatever the decoder answers: when the write succeeds the file holds the stream, and
  the file is left as it was only when it cannot be opened.
\<close>

theorem C8_debug_file_written:
  "files (snd (decompress lz ulower [93, 0, 0, 4, 0, 1, 0, 0, 0, 7]
                 (st\<lparr>wb_outcome := \<lambda>p d. Written\<rparr>))) ''newinsertpy.csv''
     = Some [93, 0, 0, 4, 0, 1, 0, 0, 0, 0, 0, 0, 0, 7]
   \<and> files (snd (decompress lz ulower [93, 0, 0, 4, 0, 1, 0, 0, 0, 7] st)) ''newinsertpy.csv''
     = (case wb_outcome st ''newinsertpy.csv'' [93, 0, 0, 4, 0, 1, 0, 0, 0, 0, 0, 0, 0, 7] of
          Written \<Rightarrow> Some [93, 0, 0, 4, 0, 1, 0, 0, 0, 0, 0, 0, 0, 7]
        | OpenFails \<Rightarrow> files st ''newinsertpy.csv''
        | WriteFails part \<Rightarrow> Some part)"
proof -
  have sg: "readSignature ulower [93, 0, 0, 4, 0, 1, 0, 0, 0, 7] = Inr LZMA"
    by (simp add: sig_defs)
  have f: "files (snd (decompress lz ulower [93, 0, 0, 4, 0, 1, 0, 0, 0, 7] s)) ''newinsertpy.csv''
     = (case wb_outcome s ''newinsertpy.csv'' [93, 0, 0, 4, 0, 1, 0, 0, 0, 0, 0, 0, 0, 7] of
          Written \<Rightarrow> Some [93, 0, 0, 4, 0, 1, 0, 0, 0, 0, 0, 0, 0, 7]
        | OpenFails \<Rightarrow> files s ''newinsertpy.csv''
        | WriteFails part \<Rightarrow> Some part)" for s
    by (simp add: decompress_def sg decompressLZMA_files py_slice_def int_from_bytes_def
        split: write_result.split)
  from f [of st] f [of "st\<lparr>wb_outcome := \<lambda>p d. Written\<rparr>"] show ?thesis by simp
qed

subsection \<open>C9: the two classes\<close>

text \<open>
  C9 says that the two classes classify and decompress every buffer alike.  On the two
  bytes \<^verbatim>\<open>SC\<close> the class of \<^verbatim>\<open>__init__.py\<close> answers \<open>SC\<close> and builds a stream of
  four zero bytes for the decoder; the class of \<^verbatim>\<open>ScCompression.py\<close> compares \<^verbatim>\<open>str\<close> of the bytes,
  which is \<^verbatim>\<open>b'SC'\<close>, with \<^verbatim>\<open>sc\<close>, answers \<open>NONE\<close> and returns the buffer.
\<close>

theorem C9_classes_disagree:
  "readSignature ulower [83, 67] = Inr SC
   \<and> readSignature_B ulower (Some [83, 67]) = Inr NONE
   \<and> fst (decompress lz ulower [83, 67] st)
       = (case write_error st ''newinsertpy.csv'' [0, 0, 0, 0] of
            None \<Rightarrow> lzma_decompress lz [0, 0, 0, 0]
          | Some e \<Rightarrow> Inl e)
   \<and> fst (Decompress_B lz ulower (Some [83, 67]) st) = Inr [83, 67]"
proof -
  have a: "readSignature ulower [83, 67] = Inr SC"
    by (simp add: sig_defs)
  have b: "readSignature_B ulower (Some [83, 67]) = Inr NONE"
    by (simp add: readSignature_B_def sig_defs str_bytes_def repr_byte_def)
  have c: "fst (decompress lz ulower [83, 67] st)
       = (case write_error st ''newinsertpy.csv'' [0, 0, 0, 0] of
            None \<Rightarrow> lzma_decompress lz [0, 0, 0, 0]
          | Some e \<Rightarrow> Inl e)"
    using decompressLZMA_fst [of lz 26 "[83, 67]" st]
    by (simp add: decompress_def a decompressSC_def py_slice_def int_from_bytes_def
        split: option.split)
  have d: "fst (Decompress_B lz ulower (Some [83, 67]) st) = Inr [83, 67]"
    by (simp add: Decompress_B_def b)
  from a b c d show ?thesis by simp
qed

subsection \<open>C10: buffers shorter than the header\<close>

text \<open>
  C10, as stated, fails: a size field that is only partly there is not read as 0.  The
  seven bytes \<^verbatim>\<open>5D 00 00 00 00 FF FF\<close> are classified \<open>LZMA\<close>, the two size bytes
  present are read as \<open>-1\<close>, and the stream is the buffer followed by
  \<^verbatim>\<open>FF FF FF FF\<close>.
\<close>

theorem C10_counterexample:
  "readSignature (\<lambda>s. s) [93, 0, 0, 0, 0, 255, 255] = Inr LZMA
   \<and> length [93, 0, 0, 0, 0, 255, 255 :: byte] < 9
   \<and> int_from_bytes (py_slice [93, 0, 0, 0, 0, 255, 255] 5 9) Big True = - 1
   \<and> int_from_bytes (py_slice [93, 0, 0, 0, 0, 255, 255] 5 9) Big True \<noteq> 0
   \<and> formattedbuffer (snd (decompress (\<lambda>s. None) (\<lambda>s. s) [93, 0, 0, 0, 0, 255, 255]
         \<lparr>files = \<lambda>p. None, formattedbuffer = None, wb_outcome = \<lambda>p d. Written\<rparr>))
       = Some [93, 0, 0, 0, 0, 255, 255, 255, 255, 255, 255]"
proof -
  have sg: "readSignature (\<lambda>s. s) [93, 0, 0, 0, 0, 255, 255] = Inr LZMA"
    by (simp add: sig_defs)
  have rd: "int_from_bytes (py_slice [93, 0, 0, 0, 0, 255, 255] 5 9) Big True = - 1"
    by (simp add: py_slice_def int_from_bytes_def)
  have fb: "formattedbuffer (snd (decompress (\<lambda>s. None) (\<lambda>s. s) [93, 0, 0, 0, 0, 255, 255]
         \<lparr>files = \<lambda>p. None, formattedbuffer = None, wb_outcome = \<lambda>p d. Written\<rparr>))
       = Some [93, 0, 0, 0, 0, 255, 255, 255, 255, 255, 255]"
    using decompressLZMA_formatted [of "\<lambda>s. None" 0 "[93, 0, 0, 0, 0, 255, 255]"]
    by (simp add: decompress_def sg py_slice_def int_from_bytes_def)
  from sg rd fb show ?thesis by simp
qed

text \<open>
  C10, amended: for every buffer classified \<open>LZMA\<close>, of any length, slicing and reading
  the size raise nothing.  A size field that is wholly missing (at most five bytes in
  the buffer) is read as 0; one that is partly there is read as the signed big-endian
  value of the bytes present, which is \<open>-1\<close> exactly when each of them is \<^verbatim>\<open>FF\<close>.  The
  stream is \<^verbatim>\<open>buffer[:9]\<close>, the pad and \<^verbatim>\<open>buffer[9:]\<close>, which for a buffer of fewer
  than nine bytes is the buffer followed by the pad, and it is left in
  \<^verbatim>\<open>_formattedbuffer\<close>.  When the write of \<^verbatim>\<open>newinsertpy.csv\<close> raises, \<^verbatim>\<open>decompress\<close>
  ends in that \<^verbatim>\<open>OSError\<close> before the decoder is called; when it succeeds, the result
  is the decoder's answer on the stream and the only error \<^verbatim>\<open>decompress\<close> can end in is
  the one of the LZMA decoder.
\<close>

theorem C10_short_lzma_buffer:
  assumes "readSignature ulower buffer = Inr LZMA"
  shows "\<exists>pad stream.
           pad = (if 5 < length buffer \<and> list_all (\<lambda>b. b = 255) (py_slice buffer 5 9)
                  then [255, 255, 255, 255] else [0, 0, 0, 0])
         \<and> stream = (if length buffer < 9 then buffer @ pad
                      else take 9 buffer @ pad @ drop 9 buffer)
         \<and> formattedbuffer (snd (decompress lz ulower buffer st)) = Some stream
         \<and> fst (decompress lz ulower buffer st)
             = (case write_error st ''newinsertpy.csv'' stream of
                  None \<Rightarrow> lzma_decompress lz stream
                | Some e \<Rightarrow> Inl e)
         \<and> fst (decompress lz ulower buffer (st\<lparr>wb_outcome := \<lambda>p d. Written\<rparr>))
             = lzma_decompress lz stream
         \<and> fst (decompress lz ulower buffer (st\<lparr>wb_outcome := \<lambda>p d. OpenFails\<rparr>))
             = Inl OSError
         \<and> (case fst (decompress lz ulower buffer (st\<lparr>wb_outcome := \<lambda>p d. Written\<rparr>)) of
               Inl e \<Rightarrow> e = LZMAError | Inr out \<Rightarrow> True)
         \<and> int_from_bytes (py_slice buffer 5 9) Big True
             = (if length buffer \<le> 5 then 0
                else int_from_bytes (take 4 (drop 5 buffer)) Big True)
         \<and> (int_from_bytes (py_slice buffer 5 9) Big True = - 1)
             = (5 < length buffer \<and> list_all (\<lambda>b. b = 255) (py_slice buffer 5 9))"
proof -
  define pad :: bytes where
    "pad = (if 5 < length buffer \<and> list_all (\<lambda>b. b = 255) (py_slice buffer 5 9)
            then [255, 255, 255, 255] else [0, 0, 0, 0])"
  define stream where
    "stream = (if length buffer < 9 then buffer @ pad else take 9 buffer @ pad @ drop 9 buffer)"
  have ne: "(py_slice buffer 5 9 \<noteq> []) = (5 < length buffer)"
    by (auto simp: py_slice_def)
  have m1: "(int_from_bytes (py_slice buffer 5 9) Big True = - 1)
             = (5 < length buffer \<and> list_all (\<lambda>b. b = 255) (py_slice buffer 5 9))"
    using int_from_bytes_minus_one [of "py_slice buffer 5 9" Big] ne by simp
  have z: "int_from_bytes (py_slice buffer 5 9) Big True
             = (if length buffer \<le> 5 then 0
                else int_from_bytes (take 4 (drop 5 buffer)) Big True)"
    by (simp add: int_from_bytes_def py_slice_def)
  have s: "py_slice buffer 0 (0 + 9)
             @ (if int_from_bytes (py_slice buffer (0 + 5) (0 + 9)) Big True = - 1
                then [255, 255, 255, 255] else [0, 0, 0, 0])
             @ drop (0 + 9) buffer = stream"
    using m1 by (simp add: stream_def pad_def py_slice_def)
  have d: "decompress lz ulower buffer t = decompressLZMA lz 0 buffer t" for t
    using assms(1) by (simp add: decompress_def)
  have f: "formattedbuffer (snd (decompress lz ulower buffer st)) = Some stream"
    unfolding d decompressLZMA_formatted s ..
  have r: "fst (decompress lz ulower buffer t)
             = (case write_error t ''newinsertpy.csv'' stream of
                  None \<Rightarrow> lzma_decompress lz stream
                | Some e \<Rightarrow> Inl e)" for t
    unfolding d decompressLZMA_fst s ..
  have w: "fst (decompress lz ulower buffer (st\<lparr>wb_outcome := \<lambda>p d. Written\<rparr>))
             = lzma_decompress lz stream"
    unfolding r by (simp add: write_error_def)
  have o: "fst (decompress lz ulower buffer (st\<lparr>wb_outcome := \<lambda>p d. OpenFails\<rparr>))
             = Inl OSError"
    unfolding r by (simp add: write_error_def)
  have e: "(case fst (decompress lz ulower buffer (st\<lparr>wb_outcome := \<lambda>p d. Written\<rparr>)) of
               Inl e \<Rightarrow> e = LZMAError | Inr out \<Rightarrow> True)"
    unfolding w by (simp add: lzma_decompress_def split: option.split)
  from pad_def stream_def f r [of st] w o e z m1 show ?thesis by blast
qed

text \<open>
  Witness of C10: the three bytes \<^verbatim>\<open>5D 00 00\<close>, with no size field, run with a decoder
  that fails and once more with a file that cannot be opened, and six bytes with one
  size byte \<^verbatim>\<open>FF\<close>.
\<close>

theorem C10_short_lzma_buffer_witness:
  "readSignature (\<lambda>s. s) [93, 0, 0] = Inr LZMA
   \<and> fst (decompress (\<lambda>s. None) (\<lambda>s. s) [93, 0, 0]
           \<lparr>files = \<lambda>p. None, formattedbuffer = None, wb_outcome = \<lambda>p d. Written\<rparr>)
       = Inl LZMAError
   \<and> formattedbuffer (snd (decompress (\<lambda>s. None) (\<lambda>s. s) [93, 0, 0]
           \<lparr>files = \<lambda>p. None, formattedbuffer = None, wb_outcome = \<lambda>p d. Written\<rparr>))
       = Some [93, 0, 0, 0, 0, 0, 0]
   \<and> fst (decompress (\<lambda>s. Some s) (\<lambda>s. s) [93, 0, 0]
           \<lparr>files = \<lambda>p. None, formattedbuffer = None, wb_outcome = \<lambda>p d. OpenFails\<rparr>)
       = Inl OSError
   \<and> readSignature (\<lambda>s. s) [93, 0, 0, 4, 0, 255] = Inr LZMA
   \<and> fst (decompress (\<lambda>s. Some s) (\<lambda>s. s) [93, 0, 0, 4, 0, 255]
           \<lparr>files = \<lambda>p. None, formattedbuffer = None, wb_outcome = \<lambda>p d. Written\<rparr>)
       = Inr [93, 0, 0, 4, 0, 255, 255, 255, 255, 255]"
proof -
  have sg1: "readSignature (\<lambda>s. s) [93, 0, 0] = Inr LZMA"
    and sg2: "readSignature (\<lambda>s. s) [93, 0, 0, 4, 0, 255] = Inr LZMA"
    by (simp_all add: sig_defs)
  from C10_short_lzma_buffer [OF sg1, of "\<lambda>s. None"
      "\<lparr>files = \<lambda>p. None, formattedbuffer = None, wb_outcome = \<lambda>p d. Written\<rparr>"]
  have w1: "fst (decompress (\<lambda>s. None) (\<lambda>s. s) [93, 0, 0]
           \<lparr>files = \<lambda>p. None, formattedbuffer = None, wb_outcome = \<lambda>p d. Written\<rparr>)
       = Inl LZMAError
     \<and> formattedbuffer (snd (decompress (\<lambda>s. None) (\<lambda>s. s) [93, 0, 0]
           \<lparr>files = \<lambda>p. None, formattedbuffer = None, wb_outcome = \<lambda>p d. Written\<rparr>))
       = Some [93, 0, 0, 0, 0, 0, 0]"
    by (simp add: lzma_decompress_def py_slice_def write_error_def)
  from C10_short_lzma_buffer [OF sg1, of "\<lambda>s. Some s"
      "\<lparr>files = \<lambda>p. None, formattedbuffer = None, wb_outcome = \<lambda>p d. OpenFails\<rparr>"]
  have w2: "fst (decompress (\<lambda>s. Some s) (\<lambda>s. s) [93, 0, 0]
           \<lparr>files = \<lambda>p. None, formattedbuffer = None, wb_outcome = \<lambda>p d. OpenFails\<rparr>)
       = Inl OSError"
    by (simp add: write_error_def)
  from C10_short_lzma_buffer [OF sg2, of "\<lambda>s. Some s"
      "\<lparr>files = \<lambda>p. None, formattedbuffer = None, wb_outcome = \<lambda>p d. Written\<rparr>"]
  have w3: "fst (decompress (\<lambda>s. Some s) (\<lambda>s. s) [93, 0, 0, 4, 0, 255]
           \<lparr>files = \<lambda>p. None, formattedbuffer = None, wb_outcome = \<lambda>p d. Written\<rparr>)
       = Inr [93, 0, 0, 4, 0, 255, 255, 255, 255, 255]"
    by (simp add: lzma_decompress_def py_slice_def write_error_def)
  from sg1 sg2 w1 w2 w3 show ?thesis by simp
qed

section \<open>Further properties of the two classes\<close>

text \<open>
  A buffer is classified \<open>LZMA\<close>, by either class, exactly when its first three bytes
  are \<^verbatim>\<open>5D 00 00\<close>, whatever follows and whatever its length.
\<close>

theorem lzma_prefix_classified:
  "(readSignature ulower buffer = Inr LZMA) = (take 3 buffer = [93, 0, 0])
   \<and> (readSignature_B ulower (Some buffer) = Inr LZMA) = (take 3 buffer = [93, 0, 0])"
  by (simp add: readSignature_LZMA_iff readSignature_B_Some)

text \<open>
  The class of \<^verbatim>\<open>ScCompression.py\<close> classifies every buffer, and only as \<open>LZMA\<close> or
  \<open>NONE\<close>: \<^verbatim>\<open>str\<close> of a \<^verbatim>\<open>bytes\<close> object starts with the letter \<^verbatim>\<open>b\<close> and a quote,
  so it is never \<^verbatim>\<open>sc\<close>, \<^verbatim>\<open>sclz\<close> or \<^verbatim>\<open>sig:\<close>.
\<close>

theorem second_class_classifies_lzma_or_none:
  "readSignature_B ulower (Some buffer)
     = (if take 3 buffer = [93, 0, 0] then Inr LZMA else Inr NONE)"
  by (rule readSignature_B_Some)

text \<open>
  Where the class of \<^verbatim>\<open>__init__.py\<close> classifies a buffer \<open>LZMA\<close> or \<open>NONE\<close>, the class
  of \<^verbatim>\<open>ScCompression.py\<close> classifies it alike, returns the same bytes or the same
  decoder error once the write of \<^verbatim>\<open>newinsertpy.csv\<close> has succeeded, and leaves the
  same \<^verbatim>\<open>_formattedbuffer\<close>: reading the size big-endian or little-endian chooses the
  same pad.
\<close>

theorem classes_agree_on_lzma_and_none:
  assumes "readSignature ulower buffer = Inr sg" and "sg = LZMA \<or> sg = NONE"
  shows "readSignature_B ulower (Some buffer) = Inr sg
       \<and> fst (Decompress_B lz ulower (Some buffer) st)
           = fst (decompress lz ulower buffer (st\<lparr>wb_outcome := \<lambda>p d. Written\<rparr>))
       \<and> formattedbuffer (snd (Decompress_B lz ulower (Some buffer) st))
           = formattedbuffer (snd (decompress lz ulower buffer st))"
proof -
  have b: "readSignature_B ulower (Some buffer) = Inr sg"
  proof (cases "take 3 buffer = [93, 0, 0]")
    case True
    with assms(1) readSignature_LZMA_iff [of ulower buffer] show ?thesis
      by (simp add: readSignature_B_Some)
  next
    case False
    with assms readSignature_LZMA_iff [of ulower buffer] show ?thesis
      by (auto simp: readSignature_B_Some)
  qed
  have m: "(int_from_bytes (py_slice buffer (0 + 5) (0 + 9)) Big True = - 1)
            = (int_from_bytes (py_slice buffer 5 9) Little True = - 1)"
    by (simp add: int_from_bytes_minus_one)
  have r: "fst (decompressLZMA lz 0 buffer (st\<lparr>wb_outcome := \<lambda>p d. Written\<rparr>))
            = fst (decompressLZMA_B lz (Some buffer) st)"
    unfolding decompressLZMA_fst m
    by (simp add: write_error_def decompressLZMA_B_def Let_def py_slice_def)
  have f: "formattedbuffer (snd (decompressLZMA lz 0 buffer st))
            = formattedbuffer (snd (decompressLZMA_B lz (Some buffer) st))"
    unfolding decompressLZMA_formatted decompressLZMA_B_formatted m
    by (simp add: py_slice_def)
  from assms(2) show ?thesis
  proof
    assume "sg = LZMA"
    with assms(1) b r f show ?thesis
      by (simp add: decompress_def Decompress_B_def)
  next
    assume "sg = NONE"
    with assms(1) b show ?thesis
      by (simp add: decompress_def Decompress_B_def)
  qed
qed

text \<open>
  Witness: a ten-byte buffer classified \<open>LZMA\<close>, decoded by the identity.
\<close>

theorem classes_agree_on_lzma_and_none_witness:
  "readSignature (\<lambda>s. s) [93, 0, 0, 4, 0, 1, 0, 0, 0, 7] = Inr LZMA
   \<and> fst (Decompress_B (\<lambda>s. Some s) (\<lambda>s. s) (Some [93, 0, 0, 4, 0, 1, 0, 0, 0, 7])
          \<lparr>files = \<lambda>p. None, formattedbuffer = None, wb_outcome = \<lambda>p d. Written\<rparr>)
      = Inr [93, 0, 0, 4, 0, 1, 0, 0, 0, 0, 0, 0, 0, 7]"
proof -
  have sg: "readSignature (\<lambda>s. s) [93, 0, 0, 4, 0, 1, 0, 0, 0, 7] = Inr LZMA"
    by (simp add: sig_defs)
  have k: "LZMA = LZMA \<or> LZMA = NONE" by simp
  have a: "fst (decompress (\<lambda>s. Some s) (\<lambda>s. s) [93, 0, 0, 4, 0, 1, 0, 0, 0, 7]
          \<lparr>files = \<lambda>p. None, formattedbuffer = None, wb_outcome = \<lambda>p d. Written\<rparr>)
     = Inr [93, 0, 0, 4, 0, 1, 0, 0, 0, 0, 0, 0, 0, 7]"
    by (simp add: decompress_def sg decompressLZMA_def lzma_decompress_def py_slice_def
        int_from_bytes_def Let_def write_file_def)
  from classes_agree_on_lzma_and_none [OF sg k, of "\<lambda>s. Some s"
      "\<lparr>files = \<lambda>p. None, formattedbuffer = None, wb_outcome = \<lambda>p d. Written\<rparr>"] sg a
  show ?thesis by simp
qed

text \<open>
  In \<^verbatim>\<open>__init__.py\<close>, a buffer whose first two bytes are \<^verbatim>\<open>SC\<close> in any case, and
  whose bytes 26..30 are ASCII, is classified \<open>SCLZ\<close> when it is longer than 30 bytes
  and those four bytes are \<^verbatim>\<open>SCLZ\<close> in any case, and \<open>SC\<close> otherwise.
\<close>

theorem sc_prefix_classified:
  assumes "2 \<le> length buffer"
    and "ascii_lower (unat (buffer ! 0)) = 115" and "ascii_lower (unat (buffer ! 1)) = 99"
    and "list_all (\<lambda>b. unat b < 128) (py_slice buffer 26 30)"
  shows "readSignature ulower buffer
           = (if 30 < length buffer
                 \<and> map (\<lambda>b. ascii_lower (unat b)) (py_slice buffer 26 30) = str_of ''sclz''
              then Inr SCLZ else Inr SC)"
proof -
  obtain b0 b1 rest where buf: "buffer = b0 # b1 # rest"
    using assms(1) by (cases buffer; cases "tl buffer") auto
  have s: "unat b0 = 83 \<or> unat b0 = 115" and c: "unat b1 = 67 \<or> unat b1 = 99"
    using assms(2,3) ascii_lower_eq_s ascii_lower_eq_c by (simp_all add: buf)
  have nl: "take 3 buffer \<noteq> [93, 0, 0]"
  proof
    assume "take 3 buffer = [93, 0, 0]"
    then have "b0 = 93" by (simp add: buf)
    with s show False by simp
  qed
  have two: "py_slice buffer 0 2 = [b0, b1]"
    by (simp add: py_slice_def buf)
  have a2: "list_all (\<lambda>b. unat b < 128) [b0, b1]"
    using s c by auto
  have d2: "utf8_decode (py_slice buffer 0 2) = Some (map unat [b0, b1])"
    unfolding two using a2 by (rule utf8_decode_ascii)
  have l2: "lower ulower (map unat [b0, b1]) = str_of ''sc''"
    using lower_ascii [OF a2, of ulower] assms(2,3) by (simp add: buf str_of_def)
  have d4: "utf8_decode (py_slice buffer 26 30) = Some (map unat (py_slice buffer 26 30))"
    using assms(4) by (rule utf8_decode_ascii)
  have l4: "lower ulower (map unat (py_slice buffer 26 30))
            = map (\<lambda>b. ascii_lower (unat b)) (py_slice buffer 26 30)"
    using assms(4) by (rule lower_ascii)
  show ?thesis
    unfolding readSignature_def lzma_test d2 d4
    using nl l2 l4 by simp
qed

text \<open>
  Witness: four bytes starting with \<^verbatim>\<open>sC\<close>, and 31 bytes starting with \<^verbatim>\<open>SC\<close> that
  hold \<^verbatim>\<open>ScLz\<close> at 26..30.
\<close>

theorem sc_prefix_classified_witness:
  "readSignature (\<lambda>s. s) [115, 67, 1, 2] = Inr SC
   \<and> readSignature (\<lambda>s. s)
       [83, 67, 0, 0, 0, 0, 0, 0, 0, 0, 0, 0, 0, 0, 0, 0, 0, 0, 0, 0, 0, 0, 0, 0, 0, 0,
        83, 99, 76, 122, 0] = Inr SCLZ"
proof -
  have w1: "readSignature (\<lambda>s. s) [115, 67, 1, 2] = Inr SC"
    using sc_prefix_classified [of "[115, 67, 1, 2]" "\<lambda>s. s"]
    by (simp add: ascii_lower_def py_slice_def)
  have w2: "readSignature (\<lambda>s. s)
       [83, 67, 0, 0, 0, 0, 0, 0, 0, 0, 0, 0, 0, 0, 0, 0, 0, 0, 0, 0, 0, 0, 0, 0, 0, 0,
        83, 99, 76, 122, 0] = Inr SCLZ"
    using sc_prefix_classified [of "[83, 67, 0, 0, 0, 0, 0, 0, 0, 0, 0, 0, 0, 0, 0, 0, 0, 0, 0, 0,
        0, 0, 0, 0, 0, 0, 83, 99, 76, 122, 0]" "\<lambda>s. s"]
    by (simp add: ascii_lower_def py_slice_def str_of_def)
  from w1 w2 show ?thesis by simp
qed

text \<open>
  When a header of 0, 26 or 68 bytes is put before a payload and the whole is
  classified \<open>LZMA\<close>, \<open>SC\<close> or \<open>SIG\<close> respectively, \<^verbatim>\<open>decompress\<close> of \<^verbatim>\<open>__init__.py\<close>
  on the whole does what its LZMA path does on the payload alone: the stream built
  from the payload is written and handed to the decoder, and result and final state are
  the same.  The \<open>SC\<close> path is the LZMA path on \<^verbatim>\<open>buffer[26:]\<close> and the \<open>SIG\<close> path is the
  LZMA path on \<^verbatim>\<open>buffer[68:]\<close>, for every buffer.
\<close>

theorem wrapped_decodes_as_payload:
  assumes "readSignature ulower (header @ payload) = Inr sg"
    and "(sg = LZMA \<and> length header = 0) \<or> (sg = SC \<and> length header = 26)
          \<or> (sg = SIG \<and> length header = 68)"
  shows "decompress lz ulower (header @ payload) st = decompressLZMA lz 0 payload st
         \<and> fst (decompress lz ulower (header @ payload) st)
             = (case write_error st ''newinsertpy.csv''
                       (take 9 payload
                        @ (if int_from_bytes (py_slice payload 5 9) Big True = - 1
                           then [255, 255, 255, 255] else [0, 0, 0, 0])
                        @ drop 9 payload) of
                  None \<Rightarrow> lzma_decompress lz
                       (take 9 payload
                        @ (if int_from_bytes (py_slice payload 5 9) Big True = - 1
                           then [255, 255, 255, 255] else [0, 0, 0, 0])
                        @ drop 9 payload)
                | Some e \<Rightarrow> Inl e)
         \<and> decompressSC lz buffer st = decompressLZMA lz 0 (drop 26 buffer) st
         \<and> decompressSIG lz buffer st = decompressLZMA lz 0 (drop 68 buffer) st"
proof -
  have sc: "decompressSC lz b st = decompressLZMA lz 0 (drop 26 b) st" for b
    unfolding decompressSC_def by (rule decompressLZMA_drop)
  have sig: "decompressSIG lz b st = decompressLZMA lz 0 (drop 68 b) st" for b
    unfolding decompressSIG_def by (rule decompressLZMA_drop)
  from assms(2) have d: "decompress lz ulower (header @ payload) st = decompressLZMA lz 0 payload st"
  proof (elim disjE conjE)
    assume "sg = LZMA" "length header = 0"
    with assms(1) show ?thesis by (simp add: decompress_def)
  next
    assume "sg = SC" "length header = 26"
    with assms(1) sc [of "header @ payload"] show ?thesis by (simp add: decompress_def)
  next
    assume "sg = SIG" "length header = 68"
    with assms(1) sig [of "header @ payload"] show ?thesis by (simp add: decompress_def)
  qed
  have f: "fst (decompress lz ulower (header @ payload) st)
             = (case write_error st ''newinsertpy.csv''
                       (take 9 payload
                        @ (if int_from_bytes (py_slice payload 5 9) Big True = - 1
                           then [255, 255, 255, 255] else [0, 0, 0, 0])
                        @ drop 9 payload) of
                  None \<Rightarrow> lzma_decompress lz
                       (take 9 payload
                        @ (if int_from_bytes (py_slice payload 5 9) Big True = - 1
                           then [255, 255, 255, 255] else [0, 0, 0, 0])
                        @ drop 9 payload)
                | Some e \<Rightarrow> Inl e)"
    unfolding d using decompressLZMA_fst [of lz 0 payload st]
    by (simp add: py_slice_def cong: option.case_cong)
  from d f sc sig show ?thesis by simp
qed

text \<open>
  Witness: the 26-byte header \<^verbatim>\<open>SC\<close> followed by zero bytes, before a ten-byte
  payload, decoded by the identity.
\<close>

theorem wrapped_decodes_as_payload_witness:
  "readSignature (\<lambda>s. s)
     ([83, 67, 0, 0, 0, 0, 0, 0, 0, 0, 0, 0, 0, 0, 0, 0, 0, 0, 0, 0, 0, 0, 0,
       0, 0, 0]
      @ [93, 0, 0, 4, 0, 255, 255, 255, 255, 7]) = Inr SC
   \<and> fst (decompress (\<lambda>s. Some s) (\<lambda>s. s)
        ([83, 67, 0, 0, 0, 0, 0, 0, 0, 0, 0, 0, 0, 0, 0, 0, 0, 0, 0, 0, 0, 0, 0,
       0, 0, 0]
         @ [93, 0, 0, 4, 0, 255, 255, 255, 255, 7])
        \<lparr>files = \<lambda>p. None, formattedbuffer = None, wb_outcome = \<lambda>p d. Written\<rparr>)
      = Inr [93, 0, 0, 4, 0, 255, 255, 255, 255, 255, 255, 255, 255, 7]"
proof -
  have sg: "readSignature (\<lambda>s. s)
     ([83, 67, 0, 0, 0, 0, 0, 0, 0, 0, 0, 0, 0, 0, 0, 0, 0, 0, 0, 0, 0, 0, 0,
       0, 0, 0]
      @ [93, 0, 0, 4, 0, 255, 255, 255, 255, 7]) = Inr SC"
    by (simp add: sig_defs)
  have len: "(SC = LZMA \<and> length ([83, 67, 0, 0, 0, 0, 0, 0, 0, 0, 0, 0, 0, 0, 0, 0, 0, 0, 0, 0, 0, 0, 0, 0, 0, 0] :: bytes) = 0)
     \<or> (SC = SC \<and> length ([83, 67, 0, 0, 0, 0, 0, 0, 0, 0, 0, 0, 0, 0, 0, 0, 0, 0, 0, 0, 0, 0, 0, 0, 0, 0] :: bytes) = 26)
     \<or> (SC = SIG \<and> length ([83, 67, 0, 0, 0, 0, 0, 0, 0, 0, 0, 0, 0, 0, 0, 0, 0, 0, 0, 0, 0, 0, 0, 0, 0, 0] :: bytes) = 68)"
    by simp
  from wrapped_decodes_as_payload [OF sg len, of "\<lambda>s. Some s"
      "\<lparr>files = \<lambda>p. None, formattedbuffer = None, wb_outcome = \<lambda>p d. Written\<rparr>" "[]",
      THEN conjunct2, THEN conjunct1]
  have "fst (decompress (\<lambda>s. Some s) (\<lambda>s. s)
        ([83, 67, 0, 0, 0, 0, 0, 0, 0, 0, 0, 0, 0, 0, 0, 0, 0, 0, 0, 0, 0, 0, 0, 0, 0, 0]
         @ [93, 0, 0, 4, 0, 255, 255, 255, 255, 7])
        \<lparr>files = \<lambda>p. None, formattedbuffer = None, wb_outcome = \<lambda>p d. Written\<rparr>)
      = Inr [93, 0, 0, 4, 0, 255, 255, 255, 255, 255, 255, 255, 255, 7]"
    by (simp add: py_slice_def int_from_bytes_def lzma_decompress_def write_error_def)
  with sg show ?thesis by simp
qed

end
